theory Spec2Isabelle
  imports Main "HOL-Library.AList" "HOL-Library.Sublist" "HOL-Library.Multiset"
begin

section \<open>Python strings\<close>

text \<open>
  A Python \<open>str\<close> is modelled as a \<open>string\<close>; one \<open>char\<close> stands for one code point
  below 256, so \<open>length\<close> is Python's \<open>len\<close> on such strings.
\<close>

text \<open>
  The code points below 256 for which \<open>str.isspace\<close> holds; \<open>str.strip()\<close> without
  an argument removes exactly these from both ends.
\<close>

definition is_space :: "char \<Rightarrow> bool" where
  "is_space c =
     (c \<in> set [CHR 0x09, CHR 0x0A, CHR 0x0B, CHR 0x0C, CHR 0x0D,
                CHR 0x1C, CHR 0x1D, CHR 0x1E, CHR 0x1F, CHR 0x20, CHR 0x85, CHR 0xA0])"

definition strip :: "string \<Rightarrow> string" where
  "strip s = rev (dropWhile is_space (rev (dropWhile is_space s)))"

text \<open>
  \<open>s.split(sep)\<close> for a separator of one character: every occurrence of the
  separator ends a piece, and the empty string gives one empty piece.
\<close>

fun split :: "char \<Rightarrow> string \<Rightarrow> string list" where
  "split sep [] = [[]]"
| "split sep (c # cs) =
     (if c = sep then [] # split sep cs
      else (case split sep cs of
              [] \<Rightarrow> [[c]]
            | l # ls \<Rightarrow> (c # l) # ls))"

text \<open>\<open>sep.join(xs)\<close>.\<close>

fun join :: "string \<Rightarrow> string list \<Rightarrow> string" where
  "join sep [] = []"
| "join sep [x] = x"
| "join sep (x # y # ys) = x @ sep @ join sep (y # ys)"

section \<open>The output parser of the query chain\<close>

text \<open>
  \<^verbatim>\<open>
  class LineList(BaseModel):
      lines: List[str]

  class LineListOutputParser(PydanticOutputParser):
      def parse(self, text: str) -> LineList:
          lines = text.strip().split("\n")
          return LineList(lines=lines)
  \<close>
  Neither \<open>strip\<close> nor \<open>split\<close> raises on a \<open>str\<close>, and a list of \<open>str\<close> always
  validates as \<open>List[str]\<close>: the method has no failing branch, so the model is a
  total function.
\<close>

record LineList =
  lines :: "string list"

definition parse :: "string \<Rightarrow> LineList" where
  "parse text = (let lines = split CHR ''\<newline>'' (strip text) in \<lparr>lines = lines\<rparr>)"

section \<open>Prompt templates\<close>

datatype py_error = KeyError string | ValueError | CollaboratorError string

text \<open>
  \<open>PromptTemplate.format\<close> substitutes the named inputs into the template the way
  \<open>str.format\<close> does. The model reads the template once from left to right:
  \<open>{name}\<close> is replaced by the input of that name (KeyError when there is none),
  \<open>{{\<close> and \<open>}}\<close> stand for one brace, a single \<open>}\<close> or a \<open>{\<close> that is never
  closed is a ValueError. A substituted value is not read again. Conversions and format
  specifications inside a field are not modelled: none of the templates here has one.
\<close>

function format_template :: "(string \<times> string) list \<Rightarrow> string \<Rightarrow> py_error + string" where
  "format_template kwargs [] = Inr []"
| "format_template kwargs (c # cs) =
     (if c = CHR ''{'' then
        (case cs of
           [] \<Rightarrow> Inl ValueError
         | d # ds \<Rightarrow>
             if d = CHR ''{'' then
               (case format_template kwargs ds of
                  Inl e \<Rightarrow> Inl e
                | Inr s \<Rightarrow> Inr (CHR ''{'' # s))
             else if dropWhile (\<lambda>x. x \<noteq> CHR ''}'') cs = [] then Inl ValueError
             else
               (case map_of kwargs (takeWhile (\<lambda>x. x \<noteq> CHR ''}'') cs) of
                  None \<Rightarrow> Inl (KeyError (takeWhile (\<lambda>x. x \<noteq> CHR ''}'') cs))
                | Some v \<Rightarrow>
                    (case format_template kwargs (tl (dropWhile (\<lambda>x. x \<noteq> CHR ''}'') cs)) of
                       Inl e \<Rightarrow> Inl e
                     | Inr s \<Rightarrow> Inr (v @ s))))
      else if c = CHR ''}'' then
        (case cs of
           [] \<Rightarrow> Inl ValueError
         | d # ds \<Rightarrow>
             if d = CHR ''}'' then
               (case format_template kwargs ds of
                  Inl e \<Rightarrow> Inl e
                | Inr s \<Rightarrow> Inr (CHR ''}'' # s))
             else Inl ValueError)
      else
        (case format_template kwargs cs of
           Inl e \<Rightarrow> Inl e
         | Inr s \<Rightarrow> Inr (c # s)))"
  by pat_completeness auto
termination
proof (relation "measure (\<lambda>(kwargs, t). length t)")
  fix kwargs :: "(string \<times> string) list" and c :: char and cs :: string and d :: char and ds :: string
  assume "cs = d # ds"
  have "length (tl (dropWhile (\<lambda>x. x \<noteq> CHR ''}'') cs)) \<le> length cs"
    using length_dropWhile_le [of "\<lambda>x. x \<noteq> CHR ''}''" cs] by simp
  then show "((kwargs, tl (dropWhile (\<lambda>x. x \<noteq> CHR ''}'') cs)), (kwargs, c # cs))
               \<in> measure (\<lambda>(kwargs, t). length t)"
    by simp
qed auto

section \<open>The text-generation collaborator and the chains\<close>

text \<open>
  The chat model is a collaborator: a function from the prompt to its reply, or to the
  error it raises. The list of prompts sent so far is threaded through every chain, so
  that the number of calls a chain makes can be read off.
\<close>

type_synonym llm = "string \<Rightarrow> py_error + string"

text \<open>
  \<open>LLMChain(llm=llm, prompt=PromptTemplate(input_variables=..., template=...),
  output_parser=parser)\<close> called on a dictionary of inputs: the chain first checks
  that every input variable of its prompt is among the inputs (ValueError when one is
  missing); then the template is formatted, sent to the model once, and the reply goes
  through the output parser.
\<close>

definition LLMChain ::
  "llm \<Rightarrow> string list \<Rightarrow> string \<Rightarrow> (string \<Rightarrow> 'a) \<Rightarrow> (string \<times> string) list \<Rightarrow> string list
     \<Rightarrow> (py_error + 'a) \<times> string list" where
  "LLMChain llm input_variables template parser inputs calls =
     (if list_ex (\<lambda>key. map_of inputs key = None) input_variables
      then (Inl ValueError, calls)
      else
        (case format_template inputs template of
           Inl e \<Rightarrow> (Inl e, calls)
         | Inr p \<Rightarrow>
             (case llm p of
                Inl e \<Rightarrow> (Inl e, calls @ [p])
              | Inr text \<Rightarrow> (Inr (parser text), calls @ [p]))))"

text \<open>
  The template of \<open>QUERY_PROMPT\<close>: the text before its slot, line by line, then the
  slot \<open>{question}\<close> and the newline that ends the template.
\<close>

definition QUERY_PROMPT_head :: string where
  "QUERY_PROMPT_head =
     ''\<newline>'' @
     ''Your task is to generate 3 different search queries that aim to\<newline>'' @
     ''answer the user question from multiple perspectives. The user questions\<newline>'' @
     ''are focused on traveling to Puerto Rico and visiting the most iconic places in the island. You must make sure to provide a variety of search queries that cover different\<newline>'' @
     ''options regarding the user itinerary.\<newline>'' @
     ''Each query MUST tackle the question from a different viewpoint, we\<newline>'' @
     ''want to get a variety of RELEVANT search results.\<newline>'' @
     ''Provide these alternative questions separated by newlines.\<newline>'' @
     ''Original question: ''"

definition QUERY_PROMPT :: string where
  "QUERY_PROMPT = QUERY_PROMPT_head @ ''{question}'' @ ''\<newline>''"

text \<open>
  The query-expansion step: \<open>LLMChain(llm=llm, prompt=QUERY_PROMPT,
  output_parser=output_parser)\<close> called with the question, of which the retriever reads
  the attribute \<open>lines\<close> (\<open>parser_key="lines"\<close>). The prompt is
  \<open>PromptTemplate(input_variables=["question"], template=template)\<close>, whose template
  is a parameter; the number of queries is not: it is only written in the template's
  text.
\<close>

definition expand ::
  "llm \<Rightarrow> string \<Rightarrow> string \<Rightarrow> string list \<Rightarrow> (py_error + string list) \<times> string list" where
  "expand llm template question calls =
     (case LLMChain llm [''question''] template parse [(''question'', question)] calls of
        (Inl e, calls') \<Rightarrow> (Inl e, calls')
      | (Inr response, calls') \<Rightarrow> (Inr (lines response), calls'))"

section \<open>JSON serialisation and the metadata trimmer\<close>

definition hex_digit :: "nat \<Rightarrow> char" where
  "hex_digit n = ''0123456789abcdef'' ! (n mod 16)"

text \<open>
  The escapes of \<open>json.dumps\<close> with \<open>ensure_ascii=True\<close> (the default): the quote,
  the backslash and the five short control escapes; every other character outside
  the printable ASCII range is written as a backslash, \<open>u\<close> and four hexadecimal digits.
\<close>

definition escape_char :: "char \<Rightarrow> string" where
  "escape_char c =
     (if c = CHR 0x22 then [CHR 0x5C, CHR 0x22]
      else if c = CHR 0x5C then [CHR 0x5C, CHR 0x5C]
      else if c = CHR 0x0A then [CHR 0x5C, CHR ''n'']
      else if c = CHR 0x0D then [CHR 0x5C, CHR ''r'']
      else if c = CHR 0x09 then [CHR 0x5C, CHR ''t'']
      else if c = CHR 0x08 then [CHR 0x5C, CHR ''b'']
      else if c = CHR 0x0C then [CHR 0x5C, CHR ''f'']
      else if 0x20 \<le> (of_char c :: nat) \<and> (of_char c :: nat) \<le> 0x7E then [c]
      else [CHR 0x5C, CHR ''u'', CHR ''0'', CHR ''0'',
            hex_digit ((of_char c :: nat) div 16), hex_digit (of_char c :: nat)])"

text \<open>\<open>json.dumps\<close> of a string: the escaped characters between two quotes.\<close>

definition encode_str :: "string \<Rightarrow> string" where
  "encode_str s = [CHR 0x22] @ concat (map escape_char s) @ [CHR 0x22]"

text \<open>
  \<open>json.dumps\<close> of an integer: its decimal digits after the sign. The notebook's
  interpreter (Python 3.12) refuses to convert an integer of more than 4300 digits to
  text: the call raises ValueError.
\<close>

fun digits :: "nat \<Rightarrow> string" where
  "digits n =
     (if n < 10 then [''0123456789'' ! n]
      else digits (n div 10) @ [''0123456789'' ! (n mod 10)])"

declare digits.simps [simp del]

definition str_int :: "int \<Rightarrow> string" where
  "str_int i = (if i < 0 then CHR ''-'' # digits (nat (- i)) else digits (nat i))"

definition dumps_int :: "int \<Rightarrow> py_error + string" where
  "dumps_int i =
     (if 4300 < length (digits (nat \<bar>i\<bar>)) then Inl ValueError else Inr (str_int i))"

text \<open>
  \<open>json.dumps\<close> of a dictionary, with its default arguments: an opening brace,
  the items separated by \<open>", "\<close>, a closing brace; an item is the key's text,
  \<open>": "\<close> and the value's text. A dictionary is the list of its items in iteration
  order; a Python dictionary holds every key once.

  What \<open>json.dumps\<close> writes for one key and for one value is a parameter: a function
  to the text, or to the error raised (a key or value of a type it does not serialise,
  an integer beyond the interpreter's limit of digits, a nesting too deep). So keys and
  values may be of any type. Without indentation the text of a value does not depend
  on the dictionary around it, and the first key or value that fails, in iteration
  order, ends the call with its error.
\<close>

fun dumps_items ::
  "('k \<Rightarrow> py_error + string) \<Rightarrow> ('v \<Rightarrow> py_error + string) \<Rightarrow> ('k \<times> 'v) list
     \<Rightarrow> py_error + string list" where
  "dumps_items dumps_key dumps_value [] = Inr []"
| "dumps_items dumps_key dumps_value ((key, value) # items) =
     (case dumps_key key of
        Inl e \<Rightarrow> Inl e
      | Inr k \<Rightarrow>
          (case dumps_value value of
             Inl e \<Rightarrow> Inl e
           | Inr v \<Rightarrow>
               (case dumps_items dumps_key dumps_value items of
                  Inl e \<Rightarrow> Inl e
                | Inr rest \<Rightarrow> Inr ((k @ '': '' @ v) # rest))))"

definition dumps ::
  "('k \<Rightarrow> py_error + string) \<Rightarrow> ('v \<Rightarrow> py_error + string) \<Rightarrow> ('k \<times> 'v) list
     \<Rightarrow> py_error + string" where
  "dumps dumps_key dumps_value items =
     (case dumps_items dumps_key dumps_value items of
        Inl e \<Rightarrow> Inl e
      | Inr texts \<Rightarrow> Inr (''{'' @ join '', '' texts @ ''}''))"

text \<open>
  \<^verbatim>\<open>
  def trim_metadata(metadata, max_size=40960):
      """Trim metadata to ensure it fits within the specified max size."""
      metadata_str = json.dumps(metadata)
      if len(metadata_str) <= max_size:
          return metadata
      # Trim the metadata if it exceeds the max size
      trimmed_metadata = {}
      for key, value in metadata.items():
          if len(json.dumps(trimmed_metadata)) + len(json.dumps({key: value})) > max_size:
              break
          trimmed_metadata[key] = value
      return trimmed_metadata
  \<close>
  The loop is \<open>trim_loop\<close>: \<open>trimmed_metadata\<close> is its fourth argument, the items
  not yet visited its fifth. \<open>trimmed_metadata[key] = value\<close> is \<open>AList.update\<close>: the
  value of a key already there is replaced in place, a new key goes to the end. An
  error of \<open>json.dumps\<close> ends the function with that error.
\<close>

fun trim_loop ::
  "('k \<Rightarrow> py_error + string) \<Rightarrow> ('v \<Rightarrow> py_error + string) \<Rightarrow> int
     \<Rightarrow> ('k \<times> 'v) list \<Rightarrow> ('k \<times> 'v) list \<Rightarrow> py_error + ('k \<times> 'v) list" where
  "trim_loop dumps_key dumps_value max_size trimmed_metadata [] = Inr trimmed_metadata"
| "trim_loop dumps_key dumps_value max_size trimmed_metadata ((key, value) # items) =
     (case dumps dumps_key dumps_value trimmed_metadata of
        Inl e \<Rightarrow> Inl e
      | Inr trimmed_str \<Rightarrow>
          (case dumps dumps_key dumps_value [(key, value)] of
             Inl e \<Rightarrow> Inl e
           | Inr item_str \<Rightarrow>
               if int (length trimmed_str) + int (length item_str) > max_size
               then Inr trimmed_metadata
               else trim_loop dumps_key dumps_value max_size
                      (AList.update key value trimmed_metadata) items))"

definition trim_metadata ::
  "('k \<Rightarrow> py_error + string) \<Rightarrow> ('v \<Rightarrow> py_error + string)
     \<Rightarrow> ('k \<times> 'v) list \<Rightarrow> int \<Rightarrow> py_error + ('k \<times> 'v) list" where
  "trim_metadata dumps_key dumps_value metadata max_size =
     (case dumps dumps_key dumps_value metadata of
        Inl e \<Rightarrow> Inl e
      | Inr metadata_str \<Rightarrow>
          if int (length metadata_str) \<le> max_size then Inr metadata
          else trim_loop dumps_key dumps_value max_size [] metadata)"

section \<open>Documents and the answer chain\<close>

text \<open>
  A metadata value is any Python object; nothing here looks inside one.
\<close>

typedecl py_object

text \<open>
  A document has the text and the metadata the notebook gives it
  (\<open>Document(page_content=..., metadata={...})\<close>); \<open>identity\<close> is the stable id
  of the data model (the notebook upserts each vector under an id made of the
  metadata's \<open>id\<close> and \<open>chunk-id\<close>).
\<close>

record Document =
  identity :: string
  page_content :: string
  metadata :: "(string \<times> py_object) list"

text \<open>
  The template of \<open>QA_PROMPT\<close>: the text before the slot \<open>{contexts}\<close>, line by
  line, then that slot, the text between the two slots, and the slot \<open>{query}\<close>, which
  ends the template.
\<close>

definition QA_PROMPT_head :: string where
  \<open>QA_PROMPT_head =
     ''You are a helpful assistant who answers user queries using the\<newline>'' @
     ''    contexts provided. If the question cannot be answered using the information\<newline>'' @
     ''    provided say "I don't know".\<newline>'' @
     ''\<newline>'' @
     ''    Contexts:\<newline>'' @
     ''    ''\<close>

definition QA_PROMPT :: string where
  "QA_PROMPT =
     QA_PROMPT_head @ ''{contexts}'' @ ''\<newline>'' @ ''\<newline>'' @ ''    Question: '' @ ''{query}''"

text \<open>
  \<open>qa_chain = LLMChain(llm=llm, prompt=QA_PROMPT)\<close>, where \<open>QA_PROMPT\<close> has the
  input variables \<open>query\<close> and \<open>contexts\<close>: no output parser.
\<close>

definition qa_chain ::
  "llm \<Rightarrow> (string \<times> string) list \<Rightarrow> string list \<Rightarrow> (py_error + string) \<times> string list" where
  "qa_chain llm inputs calls =
     LLMChain llm [''query'', ''contexts''] QA_PROMPT (\<lambda>text. text) inputs calls"

text \<open>The delimiter between two document texts: a line of three dashes.\<close>

definition delimiter :: string where
  "delimiter = ''\<newline>---\<newline>''"

text \<open>
  The call of the generation cell:
  \<^verbatim>\<open>
  qa_chain(inputs={"query": question,
                   "contexts": "\n---\n".join([d.page_content for d in docs])})
  \<close>
\<close>

definition compose ::
  "llm \<Rightarrow> string \<Rightarrow> Document list \<Rightarrow> string list \<Rightarrow> (py_error + string) \<times> string list" where
  "compose llm question docs calls =
     qa_chain llm
       [(''query'', question), (''contexts'', join delimiter (map page_content docs))]
       calls"

text \<open>
  \<^verbatim>\<open>
  def retrieval_transform(inputs: dict) -> dict:
      docs = retriever.get_relevant_documents(query=inputs["question"])
      docs = [d.page_content for d in docs]
      docs_dict = {"query": inputs["question"], "contexts": "\n---\n".join(docs)}
      return docs_dict
  \<close>
  The retriever is a collaborator: from the question it gives its documents, or the
  error it raises. It sends prompts of its own to the chat model (its queries are
  generated), so it takes the list of prompts sent so far and returns the new one.
\<close>

type_synonym retriever = "string \<Rightarrow> string list \<Rightarrow> (py_error + Document list) \<times> string list"

definition retrieval_transform ::
  "retriever \<Rightarrow> (string \<times> string) list \<Rightarrow> string list
     \<Rightarrow> (py_error + (string \<times> string) list) \<times> string list" where
  "retrieval_transform retriever inputs calls =
     (case map_of inputs ''question'' of
        None \<Rightarrow> (Inl (KeyError ''question''), calls)
      | Some question \<Rightarrow>
          (case retriever question calls of
             (Inl e, calls') \<Rightarrow> (Inl e, calls')
           | (Inr docs, calls') \<Rightarrow>
               (let docs = map page_content docs
                in (Inr [(''query'', question), (''contexts'', join delimiter docs)], calls'))))"

text \<open>\<open>d.update(other)\<close>, also written \<open>{**d, **other}\<close>.\<close>

definition dict_update :: "('k \<times> 'v) list \<Rightarrow> ('k \<times> 'v) list \<Rightarrow> ('k \<times> 'v) list" where
  "dict_update d other = foldl (\<lambda>d (key, value). AList.update key value d) d other"

text \<open>
  \<open>rag_chain = SequentialChain(chains=[retrieval_chain, qa_chain],
  input_variables=["question"], output_variables=["query", "contexts", "text"])\<close>
  called on a dictionary of inputs. The chain first checks that \<open>question\<close> is among
  the inputs (ValueError when it is missing). The outputs of the retrieval step are
  added to the inputs and the whole goes to the answer chain; the result is the inputs
  updated with \<open>query\<close>, \<open>contexts\<close> and the generated \<open>text\<close>.
\<close>

definition rag_chain ::
  "retriever \<Rightarrow> llm \<Rightarrow> (string \<times> string) list \<Rightarrow> string list
     \<Rightarrow> (py_error + (string \<times> string) list) \<times> string list" where
  "rag_chain retriever llm inputs calls =
     (if map_of inputs ''question'' = None then (Inl ValueError, calls)
      else
        (case retrieval_transform retriever inputs calls of
           (Inl e, calls') \<Rightarrow> (Inl e, calls')
         | (Inr docs_dict, calls') \<Rightarrow>
             (case qa_chain llm (dict_update inputs docs_dict) calls' of
                (Inl e, calls'') \<Rightarrow> (Inl e, calls'')
              | (Inr text, calls'') \<Rightarrow>
                  (Inr (dict_update inputs (docs_dict @ [(''text'', text)])), calls''))))"

section \<open>Retrieval and merging\<close>

text \<open>
  The notebook reaches retrieval and merging only through the library call
  \<open>retriever.get_relevant_documents(query=question)\<close>; the functions of this section
  follow the description of the Multi-Retriever and of the Result Merger instead.
\<close>

text \<open>
  Modelled from the spec: a RetrievalResult, the ordered sequence of (Document,
  relevance score) pairs that one similarity search returns. The score is kept abstract.
\<close>

type_synonym 'score RetrievalResult = "(Document \<times> 'score) list"

text \<open>
  Modelled from the spec: the similarity-search collaborator, called with a query and
  \<open>top_k\<close>; a search returns its matches or fails (RetrievalFailure: the search
  failed or timed out).
\<close>

datatype RetrievalFailure = SearchFailed | SearchTimedOut

type_synonym 'score search = "string \<Rightarrow> nat \<Rightarrow> RetrievalFailure + 'score RetrievalResult"

text \<open>
  Modelled from the spec: \<open>retrieve_all\<close> of the Multi-Retriever, which is not in the
  notebook. For each query, in input order, it issues one search asking for \<open>top_k\<close>
  matches; a failed search gives an empty RetrievalResult for that query and is
  recorded as a partial failure, and the batch goes on. The state is the list of search
  calls issued and the list of partial failures recorded.
\<close>

fun retrieve_all ::
  "'score search \<Rightarrow> string list \<Rightarrow> nat
     \<Rightarrow> (string \<times> nat) list \<times> (string \<times> RetrievalFailure) list
     \<Rightarrow> 'score RetrievalResult list
         \<times> (string \<times> nat) list \<times> (string \<times> RetrievalFailure) list" where
  "retrieve_all search [] top_k state = ([], state)"
| "retrieve_all search (query # queries) top_k (calls, failures) =
     (case search query top_k of
        Inl failure \<Rightarrow>
          (case retrieve_all search queries top_k
                  (calls @ [(query, top_k)], failures @ [(query, failure)]) of
             (results, state) \<Rightarrow> ([] # results, state))
      | Inr result \<Rightarrow>
          (case retrieve_all search queries top_k (calls @ [(query, top_k)], failures) of
             (results, state) \<Rightarrow> (result # results, state)))"

text \<open>
  Modelled from the spec: one step of the Result Merger, which is not in the notebook.
  The state is the identities seen so far and the output so far; a document is added
  to the output the first time its identity is seen, a later occurrence is dropped.
\<close>

fun merge_match ::
  "string list \<times> Document list \<Rightarrow> Document \<times> 'score \<Rightarrow> string list \<times> Document list" where
  "merge_match (seen, output) (doc, score) =
     (if identity doc \<in> set seen then (seen, output)
      else (seen @ [identity doc], output @ [doc]))"

text \<open>
  Modelled from the spec: \<open>merge\<close> of the Result Merger, which is not in the notebook.
  It iterates the results in input order and, within each RetrievalResult, the matches
  in the order given.
\<close>

definition merge :: "'score RetrievalResult list \<Rightarrow> Document list" where
  "merge results =
     snd (foldl (\<lambda>state result. foldl merge_match state result) ([], []) results)"

text \<open>
  Modelled from the spec: the documents of all matches, in iteration order (the
  results in input order and, within each, the matches in the order given).
\<close>

definition matches :: "'score RetrievalResult list \<Rightarrow> Document list" where
  "matches results = map fst (concat results)"

text \<open>
  Modelled from the spec: the order of first appearance. The documents at the
  positions whose identity occurs at no earlier position, in the order of the positions.
\<close>

definition first_occurrences :: "Document list \<Rightarrow> Document list" where
  "first_occurrences docs =
     map (\<lambda>i. docs ! i)
       (filter (\<lambda>i. identity (docs ! i) \<notin> identity ` set (take i docs)) [0..<length docs])"

text \<open>
  Modelled from the spec: the number of duplicate occurrences, that is of positions
  whose identity was already seen at an earlier position.
\<close>

definition duplicate_occurrences :: "Document list \<Rightarrow> nat" where
  "duplicate_occurrences docs =
     length (filter (\<lambda>i. identity (docs ! i) \<in> identity ` set (take i docs)) [0..<length docs])"

section \<open>Facts about splitting and joining\<close>

lemma split_not_Nil: "split sep s \<noteq> []"
  by (induction s) (auto split: list.splits)

lemma join_Cons: "ys \<noteq> [] \<Longrightarrow> join sep (x # ys) = x @ sep @ join sep ys"
  by (cases ys) simp_all

lemma join_split: "join [sep] (split sep s) = s"
proof (induction s)
  case Nil
  show ?case by simp
next
  case (Cons c cs)
  obtain l ls where sp: "split sep cs = l # ls"
    using split_not_Nil [of sep cs] by (cases "split sep cs") auto
  show ?case
  proof (cases "c = sep")
    case True
    then show ?thesis
      using Cons.IH by (simp add: join_Cons split_not_Nil)
  next
    case False
    have "join [sep] ((c # l) # ls) = c # join [sep] (l # ls)"
      by (cases ls) simp_all
    with False sp Cons.IH show ?thesis by simp
  qed
qed

lemma split_no_sep: "l \<in> set (split sep s) \<Longrightarrow> sep \<notin> set l"
proof (induction s arbitrary: l)
  case Nil
  then show ?case by simp
next
  case (Cons c cs)
  obtain m ms where sp: "split sep cs = m # ms"
    using split_not_Nil [of sep cs] by (cases "split sep cs") auto
  show ?case
  proof (cases "c = sep")
    case True
    with Cons show ?thesis by auto
  next
    case False
    with Cons.prems sp have "l = c # m \<or> l \<in> set ms" by simp
    then show ?thesis
    proof
      assume "l = c # m"
      moreover have "sep \<notin> set m" using Cons.IH [of m] sp by simp
      ultimately show ?thesis using False by simp
    next
      assume "l \<in> set ms"
      then show ?thesis using Cons.IH [of l] sp by simp
    qed
  qed
qed

lemma length_split: "length (split sep s) = Suc (count_list s sep)"
proof (induction s)
  case Nil
  show ?case by simp
next
  case (Cons c cs)
  obtain m ms where sp: "split sep cs = m # ms"
    using split_not_Nil [of sep cs] by (cases "split sep cs") auto
  with Cons.IH show ?case by (cases "c = sep") simp_all
qed

section \<open>Facts about formatting\<close>

lemma format_literal:
  "CHR ''{'' \<notin> set p \<Longrightarrow> CHR ''}'' \<notin> set p \<Longrightarrow>
   format_template kw (p @ t) =
     (case format_template kw t of Inl e \<Rightarrow> Inl e | Inr s \<Rightarrow> Inr (p @ s))"
  by (induction p) (auto split: sum.splits)

lemma format_slot:
  assumes "CHR ''}'' \<notin> set name" "name \<noteq> []" "hd name \<noteq> CHR ''{''"
    and "map_of kw name = Some v"
  shows "format_template kw (CHR ''{'' # name @ CHR ''}'' # t) =
     (case format_template kw t of Inl e \<Rightarrow> Inl e | Inr s \<Rightarrow> Inr (v @ s))"
proof -
  obtain d ds where n: "name = d # ds" using assms(2) by (cases name) auto
  have tw: "takeWhile (\<lambda>x. x \<noteq> CHR ''}'') (name @ CHR ''}'' # t) = name"
    using assms(1) by (induction name) auto
  have dw: "dropWhile (\<lambda>x. x \<noteq> CHR ''}'') (name @ CHR ''}'' # t) = CHR ''}'' # t"
    using assms(1) by (induction name) auto
  have "format_template kw (CHR ''{'' # (d # ds) @ CHR ''}'' # t) =
     (case format_template kw t of Inl e \<Rightarrow> Inl e | Inr s \<Rightarrow> Inr (v @ s))"
    using assms(3,4) tw dw unfolding n by (simp split: sum.splits)
  then show ?thesis by (simp add: n)
qed

lemma format_one_slot:
  assumes "CHR ''{'' \<notin> set pre" "CHR ''}'' \<notin> set pre"
    and "CHR ''{'' \<notin> set post" "CHR ''}'' \<notin> set post"
  shows "format_template [(''question'', question)] (pre @ ''{question}'' @ post)
           = Inr (pre @ question @ post)"
proof -
  have post: "format_template [(''question'', question)] post = Inr post"
    using format_literal [OF assms(3,4), of "[(''question'', question)]" "[]"] by simp
  have "format_template [(''question'', question)] (CHR ''{'' # ''question'' @ CHR ''}'' # post)
          = Inr (question @ post)"
    by (subst format_slot [where v = question]) (simp_all add: post)
  then show ?thesis
    using format_literal [OF assms(1,2), of "[(''question'', question)]" "''{question}'' @ post"]
    by simp
qed

lemma QUERY_PROMPT_head_no_brace:
  "CHR ''{'' \<notin> set QUERY_PROMPT_head" "CHR ''}'' \<notin> set QUERY_PROMPT_head"
  by (simp_all add: QUERY_PROMPT_head_def)

lemma format_QUERY_PROMPT:
  "format_template [(''question'', question)] QUERY_PROMPT
     = Inr (QUERY_PROMPT_head @ question @ ''\<newline>'')"
  unfolding QUERY_PROMPT_def
  by (rule format_one_slot) (simp_all add: QUERY_PROMPT_head_no_brace)

lemma QA_PROMPT_head_no_brace:
  "CHR ''{'' \<notin> set QA_PROMPT_head" "CHR ''}'' \<notin> set QA_PROMPT_head"
  by (simp_all add: QA_PROMPT_head_def)

lemma format_QA_PROMPT:
  assumes "map_of kw ''contexts'' = Some c" and "map_of kw ''query'' = Some q"
  shows "format_template kw QA_PROMPT
           = Inr (QA_PROMPT_head @ c @ ''\<newline>\<newline>    Question: '' @ q)"
proof -
  have q: "format_template kw (CHR ''{'' # ''query'' @ CHR ''}'' # []) = Inr q"
    by (subst format_slot [where v = q]) (simp_all add: assms)
  have mid: "format_template kw (''\<newline>\<newline>    Question: '' @ ''{query}'')
               = Inr (''\<newline>\<newline>    Question: '' @ q)"
    by (subst format_literal) (use q in simp_all)
  have "format_template kw
          (CHR ''{'' # ''contexts'' @ CHR ''}'' # (''\<newline>\<newline>    Question: '' @ ''{query}''))
          = Inr (c @ ''\<newline>\<newline>    Question: '' @ q)"
    by (subst format_slot [where v = c]) (simp_all only: mid assms sum.case, simp_all)
  then have "format_template kw
          (''{contexts}'' @ ''\<newline>'' @ ''\<newline>'' @ ''    Question: '' @ ''{query}'')
          = Inr (c @ ''\<newline>\<newline>    Question: '' @ q)"
    by simp
  then show ?thesis
    unfolding QA_PROMPT_def
    by (subst format_literal) (simp_all add: QA_PROMPT_head_no_brace)
qed

lemma join_concat:
  "join sep (x # xs) = x @ concat (map (\<lambda>y. sep @ y) xs)"
  by (induction xs arbitrary: x) (simp_all add: join_Cons)

lemma qa_chain_prompt:
  assumes "map_of inputs ''contexts'' = Some c" and "map_of inputs ''query'' = Some q"
  shows "qa_chain llm inputs calls =
           (llm (QA_PROMPT_head @ c @ ''\<newline>\<newline>    Question: '' @ q),
            calls @ [QA_PROMPT_head @ c @ ''\<newline>\<newline>    Question: '' @ q])"
  unfolding qa_chain_def LLMChain_def format_QA_PROMPT [OF assms]
  by (simp add: assms split: sum.splits)

section \<open>Facts about the metadata trimmer\<close>

lemma length_join_snoc:
  "length (join sep (xs @ [x])) =
     (if xs = [] then length x else length (join sep xs) + length sep + length x)"
  by (induction sep xs rule: join.induct) simp_all

lemma dumps_items_append:
  "dumps_items dk dv (xs @ ys) =
     (case dumps_items dk dv xs of
        Inl e \<Rightarrow> Inl e
      | Inr a \<Rightarrow> (case dumps_items dk dv ys of Inl e \<Rightarrow> Inl e | Inr b \<Rightarrow> Inr (a @ b)))"
  by (induction dk dv xs rule: dumps_items.induct) (auto split: sum.splits)

lemma dumps_append_Inr:
  assumes "dumps dk dv (xs @ ys) = Inr s"
  shows "(\<exists>a. dumps dk dv xs = Inr a) \<and> (\<exists>b. dumps dk dv ys = Inr b)"
  using assms by (auto simp: dumps_def dumps_items_append split: sum.splits)

lemma length_dumps_Inr: "dumps dk dv xs = Inr s \<Longrightarrow> 2 \<le> length s"
  by (auto simp: dumps_def split: sum.splits)

lemma dumps_snoc:
  assumes "dumps dk dv xs = Inr a" and "dumps dk dv [kv] = Inr b"
  shows "\<exists>s. dumps dk dv (xs @ [kv]) = Inr s \<and> length s \<le> length a + length b"
proof -
  obtain as where as: "dumps_items dk dv xs = Inr as" "a = ''{'' @ join '', '' as @ ''}''"
    using assms(1) by (auto simp: dumps_def split: sum.splits)
  obtain bs where bs: "dumps_items dk dv [kv] = Inr bs" "b = ''{'' @ join '', '' bs @ ''}''"
    using assms(2) by (auto simp: dumps_def split: sum.splits)
  obtain t where t: "bs = [t]"
    using bs(1) by (cases kv) (auto split: sum.splits)
  have "dumps dk dv (xs @ [kv]) = Inr (''{'' @ join '', '' (as @ [t]) @ ''}'')"
    by (simp add: dumps_def dumps_items_append as(1) bs(1) t)
  moreover have "length (''{'' @ join '', '' (as @ [t]) @ ''}'') \<le> length a + length b"
    by (simp add: as(2) bs(2) t length_join_snoc)
  ultimately show ?thesis by blast
qed

lemma update_new_key:
  "k \<notin> fst ` set al \<Longrightarrow> AList.update k v al = al @ [(k, v)]"
  by (induction al) auto

lemma trim_loop_result:
  assumes "distinct (map fst (trimmed @ items))"
    and "dumps dk dv (trimmed @ items) = Inr s"
    and "dumps dk dv trimmed = Inr t"
    and "int (length t) \<le> bound" and "max_size \<le> bound"
  shows "\<exists>out s'. trim_loop dk dv max_size trimmed items = Inr out
           \<and> prefix out (trimmed @ items)
           \<and> dumps dk dv out = Inr s' \<and> int (length s') \<le> bound"
  using assms
proof (induction dk dv max_size trimmed items arbitrary: t rule: trim_loop.induct)
  case (1 dk dv max_size trimmed)
  then show ?case by simp
next
  case (2 dk dv max_size trimmed key "value" items)
  have "dumps dk dv (trimmed @ [(key, value)] @ items) = Inr s"
    using "2.prems"(2) by simp
  then obtain b where b: "dumps dk dv [(key, value)] = Inr b"
    using dumps_append_Inr [of dk dv "[(key, value)]" items]
      dumps_append_Inr [of dk dv trimmed "[(key, value)] @ items" s]
    by blast
  show ?case
  proof (cases "int (length t) + int (length b) > max_size")
    case True
    then show ?thesis
      using "2.prems"(3,4) b by simp
  next
    case False
    have new: "key \<notin> fst ` set trimmed" using "2.prems"(1) by auto
    have upd: "AList.update key value trimmed = trimmed @ [(key, value)]"
      by (rule update_new_key [OF new])
    obtain t' where t': "dumps dk dv (trimmed @ [(key, value)]) = Inr t'"
        "length t' \<le> length t + length b"
      using dumps_snoc [OF "2.prems"(3) b] by blast
    have d: "distinct (map fst (AList.update key value trimmed @ items))"
      using "2.prems"(1) by (simp add: upd)
    have s: "dumps dk dv (AList.update key value trimmed @ items) = Inr s"
      using "2.prems"(2) by (simp add: upd)
    have u: "dumps dk dv (AList.update key value trimmed) = Inr t'"
      using t'(1) by (simp add: upd)
    have le: "int (length t') \<le> bound"
      using t'(2) False "2.prems"(5) by linarith
    have "\<exists>out s'. trim_loop dk dv max_size (AList.update key value trimmed) items = Inr out
           \<and> prefix out (AList.update key value trimmed @ items)
           \<and> dumps dk dv out = Inr s' \<and> int (length s') \<le> bound"
      using "2.IH" [OF "2.prems"(3) b False d s u le "2.prems"(5)] .
    then show ?thesis
      using "2.prems"(3) b False by (simp add: upd)
  qed
qed

lemma digits_not_Nil: "digits n \<noteq> []"
  by (subst digits.simps) simp

lemma length_digits_power: "10 ^ k \<le> n \<Longrightarrow> k < length (digits n)"
proof (induction k arbitrary: n)
  case 0
  show ?case using digits_not_Nil [of n] by simp
next
  case (Suc k)
  have "(10::nat) \<le> 10 ^ Suc k" by simp
  with Suc.prems have n: "\<not> n < 10" by linarith
  have "10 ^ k \<le> n div 10"
    using Suc.prems by (simp add: less_eq_div_iff_mult_less_eq mult.commute)
  then have "k < length (digits (n div 10))" by (rule Suc.IH)
  then show ?case
    using n by (subst digits.simps) simp
qed

lemma dumps_int_limit: "dumps_int (10 ^ k) = Inl ValueError" if "4300 \<le> k"
proof -
  have "nat \<bar>(10::int) ^ k\<bar> = 10 ^ k"
    by (simp add: nat_power_eq)
  then have "k < length (digits (nat \<bar>(10::int) ^ k\<bar>))"
    by (simp add: length_digits_power)
  with that show ?thesis
    by (simp add: dumps_int_def)
qed

lemma trim_metadata_raises:
  assumes "dk k = Inr t" and "dv v = Inl e"
  shows "trim_metadata dk dv [(k, v)] m = Inl e"
  by (simp add: trim_metadata_def dumps_def assms)

section \<open>Facts about merging\<close>

lemma foldl_results:
  "foldl (\<lambda>state result. foldl merge_match state result) state results
     = foldl merge_match state (concat results)"
  by (induction results arbitrary: state) simp_all

lemma seen_before_snoc:
  "i < length docs \<Longrightarrow>
   (identity ((docs @ [d]) ! i) \<in> identity ` set (take i (docs @ [d])))
     = (identity (docs ! i) \<in> identity ` set (take i docs))"
  by (simp add: nth_append)

lemma seen_before_last:
  "(identity ((docs @ [d]) ! length docs) \<in> identity ` set (take (length docs) (docs @ [d])))
     = (identity d \<in> identity ` set docs)"
  by simp

lemma first_occurrences_snoc:
  "first_occurrences (docs @ [d])
     = first_occurrences docs @ (if identity d \<in> identity ` set docs then [] else [d])"
proof -
  define new where
    "new = (\<lambda>i. identity ((docs @ [d]) ! i) \<notin> identity ` set (take i (docs @ [d])))"
  define old where
    "old = (\<lambda>i. identity (docs ! i) \<notin> identity ` set (take i docs))"
  have f: "filter new [0..<length docs] = filter old [0..<length docs]"
    by (rule filter_cong [OF refl]) (simp add: new_def old_def seen_before_snoc del: take_append)
  have l: "filter new [length docs] = (if identity d \<in> identity ` set docs then [] else [length docs])"
    using seen_before_last [of docs d] by (simp add: new_def del: take_append)
  have m: "map (\<lambda>i. (docs @ [d]) ! i) (filter old [0..<length docs])
             = map (\<lambda>i. docs ! i) (filter old [0..<length docs])"
    by (rule map_cong [OF refl]) (simp add: nth_append)
  have "first_occurrences (docs @ [d])
          = map (\<lambda>i. (docs @ [d]) ! i) (filter new ([0..<length docs] @ [length docs]))"
    by (simp add: first_occurrences_def new_def)
  also have "\<dots> = map (\<lambda>i. (docs @ [d]) ! i) (filter old [0..<length docs])
                  @ map (\<lambda>i. (docs @ [d]) ! i) (filter new [length docs])"
    by (simp only: filter_append map_append f)
  also have "\<dots> = first_occurrences docs
                  @ (if identity d \<in> identity ` set docs then [] else [d])"
    by (simp only: m l) (simp add: first_occurrences_def old_def)
  finally show ?thesis .
qed

lemma duplicate_occurrences_snoc:
  "duplicate_occurrences (docs @ [d])
     = duplicate_occurrences docs + (if identity d \<in> identity ` set docs then 1 else 0)"
proof -
  define new where
    "new = (\<lambda>i. identity ((docs @ [d]) ! i) \<in> identity ` set (take i (docs @ [d])))"
  define old where
    "old = (\<lambda>i. identity (docs ! i) \<in> identity ` set (take i docs))"
  have f: "filter new [0..<length docs] = filter old [0..<length docs]"
    by (rule filter_cong [OF refl]) (simp add: new_def old_def seen_before_snoc del: take_append)
  have l: "filter new [length docs] = (if identity d \<in> identity ` set docs then [length docs] else [])"
    using seen_before_last [of docs d] by (simp add: new_def del: take_append)
  have "duplicate_occurrences (docs @ [d])
          = length (filter new ([0..<length docs] @ [length docs]))"
    by (simp add: duplicate_occurrences_def new_def)
  also have "\<dots> = length (filter old [0..<length docs]) + length (filter new [length docs])"
    by (simp only: filter_append length_append f)
  also have "\<dots> = duplicate_occurrences docs
                  + (if identity d \<in> identity ` set docs then 1 else 0)"
    by (simp only: l) (simp add: duplicate_occurrences_def old_def)
  finally show ?thesis .
qed

lemma first_occurrences_Nil: "first_occurrences [] = []"
  by (simp add: first_occurrences_def)

lemma duplicate_occurrences_Nil: "duplicate_occurrences [] = 0"
  by (simp add: duplicate_occurrences_def)

lemma identities_first_occurrences:
  "identity ` set (first_occurrences docs) = identity ` set docs"
  by (induction docs rule: rev_induct)
     (auto simp: first_occurrences_Nil first_occurrences_snoc)

lemma distinct_first_occurrences:
  "distinct (map identity (first_occurrences docs))"
proof (induction docs rule: rev_induct)
  case Nil
  show ?case by (simp add: first_occurrences_Nil)
next
  case (snoc d docs)
  have "identity ` set (first_occurrences docs) = identity ` set docs"
    by (rule identities_first_occurrences)
  with snoc show ?case by (simp add: first_occurrences_snoc)
qed

lemma length_first_occurrences:
  "length (first_occurrences docs) + duplicate_occurrences docs = length docs"
  by (induction docs rule: rev_induct)
     (simp_all add: first_occurrences_Nil first_occurrences_snoc
        duplicate_occurrences_Nil duplicate_occurrences_snoc)

lemma subseq_first_occurrences: "subseq (first_occurrences docs) docs"
proof (induction docs rule: rev_induct)
  case Nil
  show ?case by (simp add: first_occurrences_Nil)
next
  case (snoc d docs)
  have "subseq (first_occurrences docs @ [d]) (docs @ [d])"
    using snoc by (simp add: list_emb_append_mono)
  moreover have "subseq (first_occurrences docs) (docs @ [d])"
    using snoc by (rule list_emb_prefix)
  ultimately show ?case by (simp add: first_occurrences_snoc)
qed

lemma foldl_merge_match:
  "foldl merge_match ([], []) ms
     = (map identity (first_occurrences (map fst ms)), first_occurrences (map fst ms))"
proof (induction ms rule: rev_induct)
  case Nil
  show ?case by (simp add: first_occurrences_Nil)
next
  case (snoc m ms)
  obtain doc score where m: "m = (doc, score)" by (cases m)
  have ids: "set (map identity (first_occurrences (map fst ms))) = identity ` set (map fst ms)"
    using identities_first_occurrences [of "map fst ms"] by simp
  show ?case
    using snoc ids by (simp add: m first_occurrences_snoc del: set_map)
qed

lemma merge_first_occurrences: "merge results = first_occurrences (matches results)"
  by (simp add: merge_def matches_def foldl_results foldl_merge_match)

lemma length_matches: "length (matches results) = sum_list (map length results)"
  by (simp add: matches_def length_concat)

lemma set_first_occurrences: "set (first_occurrences docs) \<subseteq> set docs"
proof
  fix e assume "e \<in> set (first_occurrences docs)"
  with subseq_first_occurrences [of docs] obtain y where "y \<in> set docs" "e = y"
    by (rule list_emb_set)
  then show "e \<in> set docs" by simp
qed

lemma set_first_occurrences_inj:
  assumes "inj_on identity (set docs)"
  shows "set (first_occurrences docs) = set docs"
proof
  show "set (first_occurrences docs) \<subseteq> set docs"
    by (rule set_first_occurrences)
next
  show "set docs \<subseteq> set (first_occurrences docs)"
  proof
    fix d assume d: "d \<in> set docs"
    then have "identity d \<in> identity ` set (first_occurrences docs)"
      by (simp add: identities_first_occurrences)
    then obtain e where e: "e \<in> set (first_occurrences docs)" "identity e = identity d"
      by auto
    have "e \<in> set docs"
      using e(1) set_first_occurrences by blast
    with assms d e(2) have "e = d" by (simp add: inj_on_def)
    with e(1) show "d \<in> set (first_occurrences docs)" by simp
  qed
qed

lemma sum_list_length_const:
  "\<forall>r \<in> set results. length r = k \<Longrightarrow> sum_list (map length results) = length results * k"
  by (induction results) auto

lemma sum_list_length_bound:
  "\<forall>r \<in> set results. length r \<le> k \<Longrightarrow> sum_list (map length results) \<le> length results * k"
  by (induction results) auto

lemma retrieve_all_results:
  "retrieve_all search queries top_k (calls, failures) =
     (map (\<lambda>q. case search q top_k of Inl failure \<Rightarrow> [] | Inr result \<Rightarrow> result) queries,
      calls @ map (\<lambda>q. (q, top_k)) queries,
      failures @ concat (map (\<lambda>q. case search q top_k of
                                      Inl failure \<Rightarrow> [(q, failure)] | Inr result \<Rightarrow> []) queries))"
  by (induction queries arbitrary: calls failures) (auto split: sum.splits)

section \<open>The query-expansion step\<close>

text \<open>
  C1, as the code has it: for every question and every template made of one slot
  \<open>{question}\<close> between two texts without braces, \<open>expand\<close> sends the formatted
  template to the text-generation collaborator once. Whenever the collaborator
  replies, \<open>expand\<close> returns the lines of the stripped reply split at newlines: at
  least one string, whatever number of queries was asked for, with no check of the
  number of lines and with empty interior lines kept. It fails only when the
  collaborator's call fails, with the collaborator's error.
\<close>

theorem expand_returns_reply_lines:
  assumes "CHR ''{'' \<notin> set pre" and "CHR ''}'' \<notin> set pre"
    and "CHR ''{'' \<notin> set post" and "CHR ''}'' \<notin> set post"
  shows "snd (expand llm (pre @ ''{question}'' @ post) question calls)
           = calls @ [pre @ question @ post]
         \<and> (\<forall>text. llm (pre @ question @ post) = Inr text \<longrightarrow>
               fst (expand llm (pre @ ''{question}'' @ post) question calls)
                 = Inr (split CHR ''\<newline>'' (strip text))
               \<and> split CHR ''\<newline>'' (strip text) \<noteq> [])
         \<and> (\<forall>e. llm (pre @ question @ post) = Inl e \<longrightarrow>
               fst (expand llm (pre @ ''{question}'' @ post) question calls) = Inl e)"
  unfolding expand_def LLMChain_def format_one_slot [OF assms]
  by (auto simp: parse_def split_not_Nil split: sum.splits)

theorem expand_returns_reply_lines_witness:
  "fst (expand
         (\<lambda>_. Inr ''What are the top sights?\<newline>Where to eat in San Juan?\<newline>Which beaches to visit?'')
         QUERY_PROMPT ''tell me about Puerto Rico?'' [])
     = Inr [''What are the top sights?'', ''Where to eat in San Juan?'', ''Which beaches to visit?'']
   \<and> snd (expand
         (\<lambda>_. Inr ''What are the top sights?\<newline>Where to eat in San Juan?\<newline>Which beaches to visit?'')
         QUERY_PROMPT ''tell me about Puerto Rico?'' [])
     = [QUERY_PROMPT_head @ ''tell me about Puerto Rico?'' @ ''\<newline>'']"
  using expand_returns_reply_lines
    [of QUERY_PROMPT_head "''\<newline>''"
        "\<lambda>_. Inr ''What are the top sights?\<newline>Where to eat in San Juan?\<newline>Which beaches to visit?''"
        "''tell me about Puerto Rico?''" "[]"]
  by (simp add: QUERY_PROMPT_head_no_brace QUERY_PROMPT_def strip_def is_space_def)

text \<open>
  The claim as stated fails: the template asks for 3 queries; on a reply of two
  non-empty lines around a blank one, \<open>expand\<close> returns three strings of which one is
  empty instead of failing, and on a reply of one line it returns one string.
\<close>

theorem expand_exactly_n_counterexample:
  "fst (expand (\<lambda>_. Inr ''a\<newline>\<newline>b'') QUERY_PROMPT ''tell me about Puerto Rico?'' [])
     = Inr [''a'', '''', ''b'']
   \<and> fst (expand (\<lambda>_. Inr ''only one'') QUERY_PROMPT ''tell me about Puerto Rico?'' [])
     = Inr [''only one'']"
  by (simp add: expand_def LLMChain_def format_QUERY_PROMPT parse_def strip_def is_space_def)


section \<open>The answer chain\<close>

text \<open>
  C7: for every question and every sequence of documents, the generation call builds
  the context block by joining the documents' texts in the given order with the
  delimiter (a newline, three dashes, a newline: the first text, then each further
  text after a delimiter), substitutes the context block and the question into
  \<open>QA_PROMPT\<close>, and sends this one prompt to the text-generation collaborator: the
  list of calls grows by exactly that prompt. The chained form (\<open>rag_chain\<close>) sends
  the same single prompt for the documents its retriever returns, after whatever the
  retriever itself has sent.
\<close>

theorem compose_one_call:
  "compose llm question docs calls =
     (llm (QA_PROMPT_head @ join delimiter (map page_content docs)
             @ ''\<newline>\<newline>    Question: '' @ question),
      calls @ [QA_PROMPT_head @ join delimiter (map page_content docs)
             @ ''\<newline>\<newline>    Question: '' @ question])
   \<and> join delimiter (map page_content (d # ds))
       = page_content d @ concat (map (\<lambda>e. ''\<newline>---\<newline>'' @ page_content e) ds)
   \<and> (retriever question calls = (Inr docs, calls') \<longrightarrow>
        snd (rag_chain retriever llm [(''question'', question)] calls)
          = calls' @ [QA_PROMPT_head @ join delimiter (map page_content docs)
                       @ ''\<newline>\<newline>    Question: '' @ question])"
proof (intro conjI impI)
  show "compose llm question docs calls =
     (llm (QA_PROMPT_head @ join delimiter (map page_content docs)
             @ ''\<newline>\<newline>    Question: '' @ question),
      calls @ [QA_PROMPT_head @ join delimiter (map page_content docs)
             @ ''\<newline>\<newline>    Question: '' @ question])"
    unfolding compose_def by (rule qa_chain_prompt) simp_all
  show "join delimiter (map page_content (d # ds))
       = page_content d @ concat (map (\<lambda>e. ''\<newline>---\<newline>'' @ page_content e) ds)"
    by (simp add: join_concat delimiter_def comp_def)
  assume r: "retriever question calls = (Inr docs, calls')"
  have t: "retrieval_transform retriever [(''question'', question)] calls
             = (Inr [(''query'', question),
                     (''contexts'', join delimiter (map page_content docs))], calls')"
    by (simp add: retrieval_transform_def r)
  have u: "dict_update [(''question'', question)]
             [(''query'', question), (''contexts'', join delimiter (map page_content docs))]
           = [(''question'', question), (''query'', question),
              (''contexts'', join delimiter (map page_content docs))]"
    by (simp add: dict_update_def)
  have "qa_chain llm [(''question'', question), (''query'', question),
              (''contexts'', join delimiter (map page_content docs))] calls'
        = (llm (QA_PROMPT_head @ join delimiter (map page_content docs)
             @ ''\<newline>\<newline>    Question: '' @ question),
      calls' @ [QA_PROMPT_head @ join delimiter (map page_content docs)
             @ ''\<newline>\<newline>    Question: '' @ question])"
    by (rule qa_chain_prompt) simp_all
  then show "snd (rag_chain retriever llm [(''question'', question)] calls)
          = calls' @ [QA_PROMPT_head @ join delimiter (map page_content docs)
                       @ ''\<newline>\<newline>    Question: '' @ question]"
    by (simp add: rag_chain_def t u split: sum.splits)
qed

theorem compose_one_call_witness:
  "snd (rag_chain
          (\<lambda>_ calls.
             (Inr [\<lparr>identity = ''1-0'', page_content = ''San Juan'', metadata = []\<rparr>,
                   \<lparr>identity = ''2-0'', page_content = ''El Yunque'', metadata = []\<rparr>], calls))
          (\<lambda>_. Inr ''answer'') [(''question'', ''tell me about Puerto Rico?'')] [])
     = [QA_PROMPT_head @ ''San Juan\<newline>---\<newline>El Yunque''
          @ ''\<newline>\<newline>    Question: tell me about Puerto Rico?'']"
  using compose_one_call
    [where llm = "\<lambda>_. Inr ''answer''" and question = "''tell me about Puerto Rico?''"
       and docs = "[\<lparr>identity = ''1-0'', page_content = ''San Juan'', metadata = []\<rparr>,
                   \<lparr>identity = ''2-0'', page_content = ''El Yunque'', metadata = []\<rparr>]"
       and calls = "[]" and calls' = "[]"
       and d = "\<lparr>identity = ''1-0'', page_content = ''San Juan'', metadata = []\<rparr>"
       and ds = "[\<lparr>identity = ''2-0'', page_content = ''El Yunque'', metadata = []\<rparr>]"
       and retriever = "\<lambda>_ calls.
           (Inr [\<lparr>identity = ''1-0'', page_content = ''San Juan'', metadata = []\<rparr>,
                 \<lparr>identity = ''2-0'', page_content = ''El Yunque'', metadata = []\<rparr>], calls)"]
  by (simp add: delimiter_def)

text \<open>
  C6: with no document, the answer chain still makes exactly one call to the
  text-generation collaborator, and the prompt is \<open>QA_PROMPT\<close> formatted with the
  question and the empty context block: the join of no text is the empty string, so the
  text before the slot is followed at once by the text between the two slots. The same
  holds for \<open>rag_chain\<close> when its retriever returns no document: after whatever the
  retriever itself has sent, exactly that one prompt is sent, and the result holds the
  chain's input \<open>question\<close> together with \<open>query\<close>, the empty \<open>contexts\<close> and the
  generated \<open>text\<close>.
\<close>

theorem empty_context_one_call:
  "compose llm question [] calls =
     (llm (QA_PROMPT_head @ ''\<newline>\<newline>    Question: '' @ question),
      calls @ [QA_PROMPT_head @ ''\<newline>\<newline>    Question: '' @ question])
   \<and> join delimiter (map page_content []) = []
   \<and> format_template [(''query'', question), (''contexts'', [])] QA_PROMPT
       = Inr (QA_PROMPT_head @ ''\<newline>\<newline>    Question: '' @ question)
   \<and> (retriever question calls = (Inr [], calls') \<longrightarrow>
        rag_chain retriever llm [(''question'', question)] calls =
          ((case llm (QA_PROMPT_head @ ''\<newline>\<newline>    Question: '' @ question) of
              Inl e \<Rightarrow> Inl e
            | Inr text \<Rightarrow>
                Inr [(''question'', question), (''query'', question), (''contexts'', ''''),
                     (''text'', text)]),
           calls' @ [QA_PROMPT_head @ ''\<newline>\<newline>    Question: '' @ question]))"
proof (intro conjI impI)
  have "qa_chain llm [(''query'', question), (''contexts'', [])] calls =
     (llm (QA_PROMPT_head @ [] @ ''\<newline>\<newline>    Question: '' @ question),
      calls @ [QA_PROMPT_head @ [] @ ''\<newline>\<newline>    Question: '' @ question])"
    by (rule qa_chain_prompt) simp_all
  then show "compose llm question [] calls =
     (llm (QA_PROMPT_head @ ''\<newline>\<newline>    Question: '' @ question),
      calls @ [QA_PROMPT_head @ ''\<newline>\<newline>    Question: '' @ question])"
    by (simp add: compose_def)
next
  show "join delimiter (map page_content []) = []" by simp
next
  have "format_template [(''query'', question), (''contexts'', [])] QA_PROMPT
          = Inr (QA_PROMPT_head @ [] @ ''\<newline>\<newline>    Question: '' @ question)"
    by (rule format_QA_PROMPT) simp_all
  then show "format_template [(''query'', question), (''contexts'', [])] QA_PROMPT
       = Inr (QA_PROMPT_head @ ''\<newline>\<newline>    Question: '' @ question)"
    by simp
next
  assume r: "retriever question calls = (Inr [], calls')"
  have t: "retrieval_transform retriever [(''question'', question)] calls
             = (Inr [(''query'', question), (''contexts'', [])], calls')"
    by (simp add: retrieval_transform_def r)
  have q: "qa_chain llm [(''question'', question), (''query'', question), (''contexts'', [])]
             calls'
        = (llm (QA_PROMPT_head @ [] @ ''\<newline>\<newline>    Question: '' @ question),
      calls' @ [QA_PROMPT_head @ [] @ ''\<newline>\<newline>    Question: '' @ question])"
    by (rule qa_chain_prompt) simp_all
  show "rag_chain retriever llm [(''question'', question)] calls =
          ((case llm (QA_PROMPT_head @ ''\<newline>\<newline>    Question: '' @ question) of
              Inl e \<Rightarrow> Inl e
            | Inr text \<Rightarrow>
                Inr [(''question'', question), (''query'', question), (''contexts'', ''''),
                     (''text'', text)]),
           calls' @ [QA_PROMPT_head @ ''\<newline>\<newline>    Question: '' @ question])"
    using q by (simp add: rag_chain_def t dict_update_def split: sum.splits)
qed

theorem empty_context_one_call_witness:
  "rag_chain (\<lambda>question calls. (Inr [], calls @ [QUERY_PROMPT_head @ question @ ''\<newline>'']))
       (\<lambda>_. Inr ''I don't know'')
       [(''question'', ''tell me about Puerto Rico?'')] [] =
     (Inr [(''question'', ''tell me about Puerto Rico?''),
           (''query'', ''tell me about Puerto Rico?''), (''contexts'', ''''),
           (''text'', ''I don't know'')],
      [QUERY_PROMPT_head @ ''tell me about Puerto Rico?'' @ ''\<newline>'',
       QA_PROMPT_head @ ''\<newline>\<newline>    Question: tell me about Puerto Rico?''])"
  using empty_context_one_call
    [where llm = "\<lambda>_. Inr ''I don't know''" and question = "''tell me about Puerto Rico?''"
       and calls = "[]"
       and retriever =
         "\<lambda>question calls. (Inr [], calls @ [QUERY_PROMPT_head @ question @ ''\<newline>''])"
       and calls' = "[QUERY_PROMPT_head @ ''tell me about Puerto Rico?'' @ ''\<newline>'']"]
  by simp

section \<open>The metadata trimmer\<close>

text \<open>
  C9, as the code has it: for every metadata dictionary (every key once) that
  \<open>json.dumps\<close> serialises and every \<open>max_size\<close>, \<open>trim_metadata\<close> returns a
  dictionary whose serialisation has length at most the larger of \<open>max_size\<close> and 2,
  so at most \<open>max_size\<close> whenever \<open>max_size\<close> is at least 2. For every
  \<open>max_size\<close>, an input that already serialises within \<open>max_size\<close> is returned
  unchanged, and the result is a prefix of the input's items in iteration order, so
  every pair of the result is a pair of the input with the same value and the kept keys
  are a prefix of the input's keys. When \<open>json.dumps\<close> raises on the input,
  \<open>trim_metadata\<close> ends with that error.
\<close>

theorem trim_metadata_fits:
  assumes "distinct (map fst md)"
  shows "(\<forall>e. dumps dumps_key dumps_value md = Inl e \<longrightarrow>
            trim_metadata dumps_key dumps_value md max_size = Inl e)
         \<and> (\<forall>s. dumps dumps_key dumps_value md = Inr s \<longrightarrow>
              (\<exists>out s'. trim_metadata dumps_key dumps_value md max_size = Inr out
                 \<and> dumps dumps_key dumps_value out = Inr s'
                 \<and> int (length s') \<le> max 2 max_size
                 \<and> (int (length s) \<le> max_size \<longrightarrow> out = md)
                 \<and> prefix out md
                 \<and> set out \<subseteq> set md
                 \<and> prefix (map fst out) (map fst md)))"
proof (intro conjI allI impI)
  fix e assume "dumps dumps_key dumps_value md = Inl e"
  then show "trim_metadata dumps_key dumps_value md max_size = Inl e"
    by (simp add: trim_metadata_def)
next
  fix s assume s: "dumps dumps_key dumps_value md = Inr s"
  show "\<exists>out s'. trim_metadata dumps_key dumps_value md max_size = Inr out
          \<and> dumps dumps_key dumps_value out = Inr s'
          \<and> int (length s') \<le> max 2 max_size
          \<and> (int (length s) \<le> max_size \<longrightarrow> out = md)
          \<and> prefix out md
          \<and> set out \<subseteq> set md
          \<and> prefix (map fst out) (map fst md)"
  proof (cases "int (length s) \<le> max_size")
    case True
    then have "trim_metadata dumps_key dumps_value md max_size = Inr md"
      by (simp add: trim_metadata_def s)
    with s True show ?thesis by auto
  next
    case False
    have e: "dumps dumps_key dumps_value [] = Inr ''{}''"
      by (simp add: dumps_def)
    obtain out s' where o: "trim_loop dumps_key dumps_value max_size [] md = Inr out"
        "prefix out ([] @ md)" "dumps dumps_key dumps_value out = Inr s'"
        "int (length s') \<le> max 2 max_size"
      using trim_loop_result [of "[]" md dumps_key dumps_value s "''{}''" "max 2 max_size" max_size]
        assms s e by auto
    have t: "trim_metadata dumps_key dumps_value md max_size = Inr out"
      using False o(1) by (simp add: trim_metadata_def s)
    from o(2) have p: "prefix out md" by simp
    from p have "set out \<subseteq> set md" by (rule set_mono_prefix)
    moreover from p have "prefix (map fst out) (map fst md)" by (rule map_mono_prefix)
    ultimately show ?thesis using t o(3,4) p False by auto
  qed
qed

theorem trim_metadata_fits_witness:
  "trim_metadata (\<lambda>key. Inr (encode_str key)) (\<lambda>value. Inr (encode_str value))
     [(''file_name'', ''a.txt''), (''summary'', ''San Juan'')] 30
     = Inr [(''file_name'', ''a.txt'')]
   \<and> map_sum id length
        (dumps (\<lambda>key. Inr (encode_str key)) (\<lambda>value. Inr (encode_str value))
           [(''file_name'', ''a.txt'')]) = Inr 22
   \<and> map_sum id length
        (dumps (\<lambda>key. Inr (encode_str key)) (\<lambda>value. Inr (encode_str value))
           [(''file_name'', ''a.txt''), (''summary'', ''San Juan'')]) = Inr 45"
  using trim_metadata_fits
    [of "[(''file_name'', ''a.txt''), (''summary'', ''San Juan'')]"
        "\<lambda>key. Inr (encode_str key)" "\<lambda>value. Inr (encode_str value)" 30]
  by (simp add: trim_metadata_def dumps_def encode_str_def escape_char_def)

text \<open>
  The claim as stated fails in two ways. Below 2: the shortest serialisation is that
  of the empty dictionary, two characters long, so with \<open>max_size = 1\<close> the result is
  the empty dictionary and does not fit. And on a dictionary that \<open>json.dumps\<close> does
  not serialise, here one whose value is an integer of 4301 digits, \<open>trim_metadata\<close>
  returns no dictionary: it ends with the ValueError of \<open>json.dumps\<close>.
\<close>

theorem trim_metadata_counterexample:
  "trim_metadata (\<lambda>key. Inr (encode_str key)) (\<lambda>value. Inr (encode_str value))
     ([] :: (string \<times> string) list) 1 = Inr []
   \<and> dumps (\<lambda>key. Inr (encode_str key)) (\<lambda>value. Inr (encode_str value))
       ([] :: (string \<times> string) list) = Inr ''{}''
   \<and> \<not> int (length ''{}'') \<le> 1
   \<and> trim_metadata (\<lambda>key. Inr (encode_str key)) dumps_int
       [(''chunk-id'', 10 ^ 4300)] 40960 = Inl ValueError"
proof (intro conjI)
  show "trim_metadata (\<lambda>key. Inr (encode_str key)) (\<lambda>value. Inr (encode_str value))
     ([] :: (string \<times> string) list) 1 = Inr []"
    by (simp add: trim_metadata_def dumps_def)
  show "dumps (\<lambda>key. Inr (encode_str key)) (\<lambda>value. Inr (encode_str value))
       ([] :: (string \<times> string) list) = Inr ''{}''"
    by (simp add: dumps_def)
  show "\<not> int (length ''{}'') \<le> 1" by simp
  show "trim_metadata (\<lambda>key. Inr (encode_str key)) dumps_int
       [(''chunk-id'', 10 ^ 4300)] 40960 = Inl ValueError"
  proof (rule trim_metadata_raises)
    show "(\<lambda>key. Inr (encode_str key)) ''chunk-id'' = Inr (encode_str ''chunk-id'')"
      by (rule refl)
    show "dumps_int (10 ^ 4300) = Inl ValueError"
      by (rule dumps_int_limit) (rule order_refl)
  qed
qed

section \<open>The Multi-Retriever\<close>

text \<open>
  C3: for every sequence of queries and every \<open>top_k\<close>, \<open>retrieve_all\<close> returns one
  RetrievalResult per query, in the order of the queries, and issues exactly one search
  per query, in that order, each asking for \<open>top_k\<close> matches. The entry of a query
  whose search fails or times out is the empty RetrievalResult, and the entry of every
  other query is what its own search returned.
\<close>

theorem retrieve_all_one_result_per_query:
  "fst (retrieve_all search queries top_k (calls, failures))
     = map (\<lambda>q. case search q top_k of Inl failure \<Rightarrow> [] | Inr result \<Rightarrow> result) queries
   \<and> length (fst (retrieve_all search queries top_k (calls, failures))) = length queries
   \<and> fst (snd (retrieve_all search queries top_k (calls, failures)))
       = calls @ map (\<lambda>q. (q, top_k)) queries
   \<and> (\<forall>i < length queries.
        (\<forall>failure. search (queries ! i) top_k = Inl failure \<longrightarrow>
           fst (retrieve_all search queries top_k (calls, failures)) ! i = [])
        \<and> (\<forall>result. search (queries ! i) top_k = Inr result \<longrightarrow>
           fst (retrieve_all search queries top_k (calls, failures)) ! i = result))"
  by (simp add: retrieve_all_results)

theorem retrieve_all_one_result_per_query_witness:
  "retrieve_all
     (\<lambda>q k. if q = ''beaches'' then Inl SearchTimedOut
            else Inr (take k [(\<lparr>identity = q, page_content = q, metadata = []\<rparr>, 1 :: nat)]))
     [''history'', ''beaches'', ''food''] 3 ([], [])
   = ([[(\<lparr>identity = ''history'', page_content = ''history'', metadata = []\<rparr>, 1)],
       [],
       [(\<lparr>identity = ''food'', page_content = ''food'', metadata = []\<rparr>, 1)]],
      [(''history'', 3), (''beaches'', 3), (''food'', 3)],
      [(''beaches'', SearchTimedOut)])"
  using retrieve_all_one_result_per_query
    [of "\<lambda>q k. if q = ''beaches'' then Inl SearchTimedOut
            else Inr (take k [(\<lparr>identity = q, page_content = q, metadata = []\<rparr>, 1 :: nat)])"
        "[''history'', ''beaches'', ''food'']" 3 "[]" "[]"]
  by simp


section \<open>The Result Merger\<close>

text \<open>
  C2: for every sequence of RetrievalResults, \<open>merge\<close> returns the documents at
  the positions of first occurrence of their identity, iterating the results in input
  order and each result in match order: no two entries of the output have the same
  identity, every identity of the input is in the output, and the output is a
  subsequence of the matches, so its order is the order of first appearance.
\<close>

theorem merge_first_occurrence_order:
  "merge results = first_occurrences (matches results)
   \<and> distinct (map identity (merge results))
   \<and> identity ` set (merge results) = identity ` set (matches results)
   \<and> subseq (merge results) (matches results)"
  by (simp add: merge_first_occurrences distinct_first_occurrences
        identities_first_occurrences subseq_first_occurrences del: set_map)

theorem merge_first_occurrence_order_witness:
  "merge [[(\<lparr>identity = ''a'', page_content = ''A'', metadata = []\<rparr>, 9 :: nat),
           (\<lparr>identity = ''b'', page_content = ''B'', metadata = []\<rparr>, 8)],
          [(\<lparr>identity = ''b'', page_content = ''B'', metadata = []\<rparr>, 7),
           (\<lparr>identity = ''c'', page_content = ''C'', metadata = []\<rparr>, 6)],
          [(\<lparr>identity = ''a'', page_content = ''A'', metadata = []\<rparr>, 5)]]
     = [\<lparr>identity = ''a'', page_content = ''A'', metadata = []\<rparr>,
        \<lparr>identity = ''b'', page_content = ''B'', metadata = []\<rparr>,
        \<lparr>identity = ''c'', page_content = ''C'', metadata = []\<rparr>]
   \<and> first_occurrences
         [\<lparr>identity = ''a'', page_content = ''A'', metadata = []\<rparr>,
          \<lparr>identity = ''b'', page_content = ''B'', metadata = []\<rparr>,
          \<lparr>identity = ''b'', page_content = ''B'', metadata = []\<rparr>,
          \<lparr>identity = ''c'', page_content = ''C'', metadata = []\<rparr>,
          \<lparr>identity = ''a'', page_content = ''A'', metadata = []\<rparr>]
     = [\<lparr>identity = ''a'', page_content = ''A'', metadata = []\<rparr>,
        \<lparr>identity = ''b'', page_content = ''B'', metadata = []\<rparr>,
        \<lparr>identity = ''c'', page_content = ''C'', metadata = []\<rparr>]"
  using merge_first_occurrence_order
    [of "[[(\<lparr>identity = ''a'', page_content = ''A'', metadata = []\<rparr>, 9 :: nat),
           (\<lparr>identity = ''b'', page_content = ''B'', metadata = []\<rparr>, 8)],
          [(\<lparr>identity = ''b'', page_content = ''B'', metadata = []\<rparr>, 7),
           (\<lparr>identity = ''c'', page_content = ''C'', metadata = []\<rparr>, 6)],
          [(\<lparr>identity = ''a'', page_content = ''A'', metadata = []\<rparr>, 5)]]"]
  by (simp add: merge_def matches_def)

text \<open>
  C4: the size of the merged output is the total number of matches minus the number
  of duplicate occurrences, where the total is the sum of the sizes of the
  RetrievalResults; in particular three results of three matches each with two
  duplicate occurrences merge into 9 - 2 = 7 documents.
\<close>

theorem merge_size:
  "length (merge results)
     = length (matches results) - duplicate_occurrences (matches results)
   \<and> duplicate_occurrences (matches results) \<le> length (matches results)
   \<and> length (matches results) = sum_list (map length results)
   \<and> (length results = 3 \<and> (\<forall>r \<in> set results. length r = 3)
          \<and> duplicate_occurrences (matches results) = 2
        \<longrightarrow> length (merge results) = 7)"
proof -
  have l: "length (merge results) + duplicate_occurrences (matches results)
             = length (matches results)"
    by (simp add: merge_first_occurrences length_first_occurrences)
  have t: "length (matches results) = sum_list (map length results)"
    by (rule length_matches)
  have s: "length (matches results) = 9"
    if "length results = 3" and "\<forall>r \<in> set results. length r = 3"
    using that sum_list_length_const [of results 3] by (simp add: t)
  from l t s show ?thesis by auto
qed

theorem merge_size_witness:
  "length (merge
     [[(\<lparr>identity = ''a'', page_content = ''A'', metadata = []\<rparr>, 9 :: nat),
       (\<lparr>identity = ''b'', page_content = ''B'', metadata = []\<rparr>, 8),
       (\<lparr>identity = ''c'', page_content = ''C'', metadata = []\<rparr>, 7)],
      [(\<lparr>identity = ''b'', page_content = ''B'', metadata = []\<rparr>, 9),
       (\<lparr>identity = ''d'', page_content = ''D'', metadata = []\<rparr>, 8),
       (\<lparr>identity = ''e'', page_content = ''E'', metadata = []\<rparr>, 7)],
      [(\<lparr>identity = ''f'', page_content = ''F'', metadata = []\<rparr>, 9),
       (\<lparr>identity = ''a'', page_content = ''A'', metadata = []\<rparr>, 8),
       (\<lparr>identity = ''g'', page_content = ''G'', metadata = []\<rparr>, 7)]]) = 7"
proof -
  have d: "duplicate_occurrences (matches
     [[(\<lparr>identity = ''a'', page_content = ''A'', metadata = []\<rparr>, 9 :: nat),
       (\<lparr>identity = ''b'', page_content = ''B'', metadata = []\<rparr>, 8),
       (\<lparr>identity = ''c'', page_content = ''C'', metadata = []\<rparr>, 7)],
      [(\<lparr>identity = ''b'', page_content = ''B'', metadata = []\<rparr>, 9),
       (\<lparr>identity = ''d'', page_content = ''D'', metadata = []\<rparr>, 8),
       (\<lparr>identity = ''e'', page_content = ''E'', metadata = []\<rparr>, 7)],
      [(\<lparr>identity = ''f'', page_content = ''F'', metadata = []\<rparr>, 9),
       (\<lparr>identity = ''a'', page_content = ''A'', metadata = []\<rparr>, 8),
       (\<lparr>identity = ''g'', page_content = ''G'', metadata = []\<rparr>, 7)]]) = 2"
    by (simp add: duplicate_occurrences_def matches_def)
  show ?thesis
    using d merge_size
    [of "[[(\<lparr>identity = ''a'', page_content = ''A'', metadata = []\<rparr>, 9 :: nat),
       (\<lparr>identity = ''b'', page_content = ''B'', metadata = []\<rparr>, 8),
       (\<lparr>identity = ''c'', page_content = ''C'', metadata = []\<rparr>, 7)],
      [(\<lparr>identity = ''b'', page_content = ''B'', metadata = []\<rparr>, 9),
       (\<lparr>identity = ''d'', page_content = ''D'', metadata = []\<rparr>, 8),
       (\<lparr>identity = ''e'', page_content = ''E'', metadata = []\<rparr>, 7)],
      [(\<lparr>identity = ''f'', page_content = ''F'', metadata = []\<rparr>, 9),
       (\<lparr>identity = ''a'', page_content = ''A'', metadata = []\<rparr>, 8),
       (\<lparr>identity = ''g'', page_content = ''G'', metadata = []\<rparr>, 7)]]"]
    by simp
qed

text \<open>
  C5: two sequences of RetrievalResults that hold the same multiset of documents,
  in whatever arrangement, merge into outputs with the same set of identities; the set
  of identities of the output depends only on the set of identities of the input.
  Where the identity determines the document, the outputs hold the same documents.
\<close>

theorem merge_membership:
  "(mset (matches results1) = mset (matches results2) \<longrightarrow>
      identity ` set (merge results1) = identity ` set (merge results2))
   \<and> (identity ` set (matches results1) = identity ` set (matches results2) \<longrightarrow>
      identity ` set (merge results1) = identity ` set (merge results2))
   \<and> (mset (matches results1) = mset (matches results2)
        \<and> inj_on identity (set (matches results1)) \<longrightarrow>
      set (merge results1) = set (merge results2))"
proof (intro conjI impI)
  assume "mset (matches results1) = mset (matches results2)"
  then have "set (matches results1) = set (matches results2)"
    by (rule mset_eq_setD)
  then show "identity ` set (merge results1) = identity ` set (merge results2)"
    by (simp add: merge_first_occurrences identities_first_occurrences)
next
  assume "identity ` set (matches results1) = identity ` set (matches results2)"
  then show "identity ` set (merge results1) = identity ` set (merge results2)"
    by (simp add: merge_first_occurrences identities_first_occurrences)
next
  assume a: "mset (matches results1) = mset (matches results2)
             \<and> inj_on identity (set (matches results1))"
  then have "mset (matches results1) = mset (matches results2)" ..
  then have s: "set (matches results1) = set (matches results2)"
    by (rule mset_eq_setD)
  from a have i1: "inj_on identity (set (matches results1))" ..
  with s have i2: "inj_on identity (set (matches results2))" by simp
  have "set (merge results1) = set (matches results1)"
    unfolding merge_first_occurrences by (rule set_first_occurrences_inj [OF i1])
  moreover have "set (merge results2) = set (matches results2)"
    unfolding merge_first_occurrences by (rule set_first_occurrences_inj [OF i2])
  ultimately show "set (merge results1) = set (merge results2)"
    using s by simp
qed

theorem merge_membership_witness:
  "identity ` set (merge
      [[(\<lparr>identity = ''a'', page_content = ''A'', metadata = []\<rparr>, 9 :: nat),
        (\<lparr>identity = ''b'', page_content = ''B'', metadata = []\<rparr>, 8)],
       [(\<lparr>identity = ''b'', page_content = ''B'', metadata = []\<rparr>, 7),
        (\<lparr>identity = ''c'', page_content = ''C'', metadata = []\<rparr>, 6)]])
   = identity ` set (merge
      [[(\<lparr>identity = ''c'', page_content = ''C'', metadata = []\<rparr>, 6 :: nat),
        (\<lparr>identity = ''b'', page_content = ''B'', metadata = []\<rparr>, 7)],
       [(\<lparr>identity = ''b'', page_content = ''B'', metadata = []\<rparr>, 8),
        (\<lparr>identity = ''a'', page_content = ''A'', metadata = []\<rparr>, 9)]])
   \<and> merge
      [[(\<lparr>identity = ''a'', page_content = ''A'', metadata = []\<rparr>, 9 :: nat),
        (\<lparr>identity = ''b'', page_content = ''B'', metadata = []\<rparr>, 8)],
       [(\<lparr>identity = ''b'', page_content = ''B'', metadata = []\<rparr>, 7),
        (\<lparr>identity = ''c'', page_content = ''C'', metadata = []\<rparr>, 6)]]
   \<noteq> merge
      [[(\<lparr>identity = ''c'', page_content = ''C'', metadata = []\<rparr>, 6 :: nat),
        (\<lparr>identity = ''b'', page_content = ''B'', metadata = []\<rparr>, 7)],
       [(\<lparr>identity = ''b'', page_content = ''B'', metadata = []\<rparr>, 8),
        (\<lparr>identity = ''a'', page_content = ''A'', metadata = []\<rparr>, 9)]]"
proof -
  have m: "mset (matches
      [[(\<lparr>identity = ''a'', page_content = ''A'', metadata = []\<rparr>, 9 :: nat),
        (\<lparr>identity = ''b'', page_content = ''B'', metadata = []\<rparr>, 8)],
       [(\<lparr>identity = ''b'', page_content = ''B'', metadata = []\<rparr>, 7),
        (\<lparr>identity = ''c'', page_content = ''C'', metadata = []\<rparr>, 6)]])
   = mset (matches
      [[(\<lparr>identity = ''c'', page_content = ''C'', metadata = []\<rparr>, 6 :: nat),
        (\<lparr>identity = ''b'', page_content = ''B'', metadata = []\<rparr>, 7)],
       [(\<lparr>identity = ''b'', page_content = ''B'', metadata = []\<rparr>, 8),
        (\<lparr>identity = ''a'', page_content = ''A'', metadata = []\<rparr>, 9)]])"
    by (simp add: matches_def add_mset_commute)
  have n: "merge
      [[(\<lparr>identity = ''a'', page_content = ''A'', metadata = []\<rparr>, 9 :: nat),
        (\<lparr>identity = ''b'', page_content = ''B'', metadata = []\<rparr>, 8)],
       [(\<lparr>identity = ''b'', page_content = ''B'', metadata = []\<rparr>, 7),
        (\<lparr>identity = ''c'', page_content = ''C'', metadata = []\<rparr>, 6)]]
   \<noteq> merge
      [[(\<lparr>identity = ''c'', page_content = ''C'', metadata = []\<rparr>, 6 :: nat),
        (\<lparr>identity = ''b'', page_content = ''B'', metadata = []\<rparr>, 7)],
       [(\<lparr>identity = ''b'', page_content = ''B'', metadata = []\<rparr>, 8),
        (\<lparr>identity = ''a'', page_content = ''A'', metadata = []\<rparr>, 9)]]"
    by (simp add: merge_def)
  from m n merge_membership
    [of "[[(\<lparr>identity = ''a'', page_content = ''A'', metadata = []\<rparr>, 9 :: nat),
        (\<lparr>identity = ''b'', page_content = ''B'', metadata = []\<rparr>, 8)],
       [(\<lparr>identity = ''b'', page_content = ''B'', metadata = []\<rparr>, 7),
        (\<lparr>identity = ''c'', page_content = ''C'', metadata = []\<rparr>, 6)]]"
        "[[(\<lparr>identity = ''c'', page_content = ''C'', metadata = []\<rparr>, 6 :: nat),
        (\<lparr>identity = ''b'', page_content = ''B'', metadata = []\<rparr>, 7)],
       [(\<lparr>identity = ''b'', page_content = ''B'', metadata = []\<rparr>, 8),
        (\<lparr>identity = ''a'', page_content = ''A'', metadata = []\<rparr>, 9)]]"]
  show ?thesis by blast
qed

text \<open>
  C8: when each of the N RetrievalResults holds at most \<open>top_k\<close> matches, the
  merged set has no two entries of the same identity and at most N times \<open>top_k\<close>
  entries.
\<close>

theorem merged_size_bound:
  assumes "\<forall>r \<in> set results. length r \<le> top_k"
  shows "distinct (map identity (merge results))
         \<and> length (merge results) \<le> length results * top_k"
proof -
  have "length (merge results) + duplicate_occurrences (matches results)
          = length (matches results)"
    by (simp add: merge_first_occurrences length_first_occurrences)
  then have "length (merge results) \<le> sum_list (map length results)"
    by (simp add: length_matches [symmetric])
  also have "\<dots> \<le> length results * top_k"
    using assms by (rule sum_list_length_bound)
  finally have "length (merge results) \<le> length results * top_k" .
  then show ?thesis
    by (simp add: merge_first_occurrences distinct_first_occurrences)
qed

theorem merged_size_bound_witness:
  "length (merge
      [[(\<lparr>identity = ''a'', page_content = ''A'', metadata = []\<rparr>, 9 :: nat),
        (\<lparr>identity = ''b'', page_content = ''B'', metadata = []\<rparr>, 8)],
       [(\<lparr>identity = ''b'', page_content = ''B'', metadata = []\<rparr>, 7)],
       []]) \<le> 3 * 2"
  using merged_size_bound
    [of "[[(\<lparr>identity = ''a'', page_content = ''A'', metadata = []\<rparr>, 9 :: nat),
        (\<lparr>identity = ''b'', page_content = ''B'', metadata = []\<rparr>, 8)],
       [(\<lparr>identity = ''b'', page_content = ''B'', metadata = []\<rparr>, 7)],
       []]" 2]
  by simp

section \<open>The parser returns the lines of the stripped text\<close>

text \<open>
  C10: for every input string, \<open>LineListOutputParser.parse\<close> returns a \<open>LineList\<close>
  (the model has no error branch, as the method has none) whose lines are the stripped
  input split at newline characters: there is at least one line, no line holds a
  newline, joining the lines with newlines gives back the stripped input (so interior
  blank lines are kept as empty strings), and the number of lines is one more than the
  number of newlines of the stripped input, whatever number of queries was asked for.
\<close>

theorem parse_lines_of_stripped_text:
  "lines (parse text) = split CHR ''\<newline>'' (strip text)
   \<and> lines (parse text) \<noteq> []
   \<and> join [CHR ''\<newline>''] (lines (parse text)) = strip text
   \<and> (\<forall>l \<in> set (lines (parse text)). CHR ''\<newline>'' \<notin> set l)
   \<and> length (lines (parse text)) = Suc (count_list (strip text) CHR ''\<newline>'')"
  by (simp add: parse_def split_not_Nil join_split split_no_sep length_split)

theorem parse_lines_of_stripped_text_witness:
  "lines (parse ('' a'' @ [CHR ''\<newline>'', CHR ''\<newline>''] @ ''b'' @ [CHR ''\<newline>'']))
     = [''a'', '''', ''b'']
   \<and> length (lines (parse ('' a'' @ [CHR ''\<newline>'', CHR ''\<newline>''] @ ''b'' @ [CHR ''\<newline>''])))
     = Suc (count_list (strip ('' a'' @ [CHR ''\<newline>'', CHR ''\<newline>''] @ ''b'' @ [CHR ''\<newline>''])) CHR ''\<newline>'')"
  using parse_lines_of_stripped_text
    [of "'' a'' @ [CHR ''\<newline>'', CHR ''\<newline>''] @ ''b'' @ [CHR ''\<newline>'']"]
  by (simp add: strip_def is_space_def)

end
